theory Spec2Isabelle
  imports Main "HOL-Library.AList" "HOL-Library.Sublist"
begin

section \<open>The knowledge-base service of api.py\<close>

text \<open>
  A shallow embedding of the request handlers of \<^verbatim>\<open>api.py\<close>: the document store
  (upload, list, delete), the single-shot chat, the streaming session and the webhook
  handler.

  Modelling decisions, all of them visible in the definitions below.
  \<^item> The upload tree is the directory \<^verbatim>\<open>UPLOAD_ROOT_PATH\<close>, one directory per knowledge
    base, regular files in it. A directory is an association list from names to
    contents, in the order \<^verbatim>\<open>os.listdir\<close> enumerates it. The root may be absent
    (\<open>None\<close>).
  \<^item> The tree is keyed by the knowledge base id and the file name as they are given.
    That is what the code does for names that are plain path components (\<open>plain\<close>
    below). It is not what the code does for other names: with the file name
    \<^verbatim>\<open>sub/a.txt\<close> the \<^verbatim>\<open>open\<close> of lines 107 and 142 raises
    \<^verbatim>\<open>FileNotFoundError\<close>, the id \<^verbatim>\<open>kb1/\<close> names the folder of \<^verbatim>\<open>kb1\<close>, and
    the empty id names the root. The general theorems about the upload tree therefore
    assume plain names; the theorems at concrete inputs use plain names.
  \<^item> The index locations are a partial map from path strings to an index; a path
    exists for \<^verbatim>\<open>os.path.exists\<close> when the map is defined there. The map is kept
    apart from the upload tree, which is what the code sees when the index location of
    a knowledge base is neither inside the upload root nor above it (\<open>index_apart\<close>
    below); otherwise creating the folder of line 98 would make the index location
    exist. The general theorems that depend on the test of line 111 assume it.
  \<^item> \<^verbatim>\<open>LocalDocQA\<close> (\<^verbatim>\<open>chains/local_doc_qa.py\<close>) and the two roots of
    \<^verbatim>\<open>configs/model_config.py\<close> are parameters: the engine is a record of three
    functions that read the documents and read or update the index locations, and that
    hand their result to the caller whether the call site awaits it or not. Every call
    of a building operation is appended to the log \<open>calls\<close>.
  \<^item> Exceptions are values of \<open>error\<close>; a handler that can raise returns a sum.
  \<^item> The message templates (f-strings, most of them Chinese text) are constructors of
    \<open>msg\<close> that carry the interpolated values.
\<close>

subsection \<open>Paths\<close>

text \<open>\<^verbatim>\<open>posixpath.join\<close> for two components; three components are two joins.\<close>

definition path_join :: "string \<Rightarrow> string \<Rightarrow> string" where
  "path_join a b =
     (if take 1 b = ''/'' then b
      else if a = [] \<or> last a = CHR ''/'' then a @ b
      else a @ ''/'' @ b)"

text \<open>\<^verbatim>\<open>os.path.split(p)[-1]\<close>: what follows the last separator.\<close>

definition split_last :: "string \<Rightarrow> string" where
  "split_last p = rev (takeWhile (\<lambda>c. c \<noteq> CHR ''/'') (rev p))"

record config =
  UPLOAD_ROOT_PATH :: string
  VS_ROOT_PATH :: string

definition get_folder_path :: "config \<Rightarrow> string \<Rightarrow> string" where
  "get_folder_path cfg local_doc_id = path_join (UPLOAD_ROOT_PATH cfg) local_doc_id"

definition get_vs_path :: "config \<Rightarrow> string \<Rightarrow> string" where
  "get_vs_path cfg local_doc_id = path_join (VS_ROOT_PATH cfg) local_doc_id"

definition get_file_path :: "config \<Rightarrow> string \<Rightarrow> string \<Rightarrow> string" where
  "get_file_path cfg local_doc_id doc_name =
     path_join (path_join (UPLOAD_ROOT_PATH cfg) local_doc_id) doc_name"



subsection \<open>Values, errors and responses\<close>

type_synonym bytes = "char list"

type_synonym directory = "(string \<times> bytes) list"

datatype error =
    TypeError
  | KeyError
  | ValueError_not_found string
  | UnboundLocalError
  | FileNotFoundError
  | WebSocketDisconnect
  | JSONDecodeError
  | UpstreamError

text \<open>
  The messages of the handlers, by line of \<^verbatim>\<open>api.py\<close>: 28 the default
  \<^verbatim>\<open>"success"\<close>; 104 file already exists; 114 uploaded and added to the knowledge
  base; 119 uploaded to a new knowledge base; 122 upload failed; 148 the loaded file
  names; 150 files not loaded; 160, 189 knowledge base not found; 195 document not found.
\<close>

datatype msg =
    Msg_success
  | Msg_file_exists string
  | Msg_uploaded_added string
  | Msg_uploaded_new string
  | Msg_upload_failed
  | Msg_loaded "string list"
  | Msg_not_loaded
  | Msg_kb_not_found string
  | Msg_doc_not_found string

text \<open>
  What a handler returns: a plain dict \<^verbatim>\<open>{"code": c, "msg": m}\<close>, or one of the
  pydantic models. \<^verbatim>\<open>BaseResponse()\<close> has code 200 and message success.
\<close>

datatype response =
    Dict int msg
  | BaseResponse int msg
  | ListDocsResponse int msg "string list"

datatype pyval = PyInt int | PyMsg msg | PyList "string list"

text \<open>
  \<^verbatim>\<open>r[key]\<close>: a dict is subscriptable, a pydantic model is not
  (\<^verbatim>\<open>TypeError: object is not subscriptable\<close>).
\<close>

fun getitem :: "response \<Rightarrow> string \<Rightarrow> error + pyval" where
  "getitem (Dict c m) k =
     (if k = ''code'' then Inr (PyInt c)
      else if k = ''msg'' then Inr (PyMsg m)
      else Inl KeyError)"
| "getitem (BaseResponse c m) k = Inl TypeError"
| "getitem (ListDocsResponse c m d) k = Inl TypeError"

fun py_len :: "pyval \<Rightarrow> error + nat" where
  "py_len (PyList xs) = Inr (length xs)"
| "py_len (PyInt i) = Inl TypeError"
| "py_len (PyMsg m) = Inl TypeError"

fun response_code :: "response \<Rightarrow> int" where
  "response_code (Dict c m) = c"
| "response_code (BaseResponse c m) = c"
| "response_code (ListDocsResponse c m d) = c"

subsection \<open>The engine and the state\<close>

text \<open>
  The first argument of \<^verbatim>\<open>init_knowledge_vector_store\<close>: a list of file paths
  (the uploads) or the path of a folder (the delete handler).
\<close>

datatype filearg = Paths "string list" | Folder string

datatype engine_call =
    Init_knowledge_vector_store filearg string
  | Add_files_to_knowledge_vector_store string "string list"

record document =
  source :: string
  page_content :: string
  score :: string

record resp =
  result :: string
  source_documents :: "document list"

type_synonym history = "string list list"

type_synonym upload_tree = "(string \<times> directory) list option"

record 'ix local_doc_qa =
  init_knowledge_vector_store ::
    "filearg \<Rightarrow> string \<Rightarrow> upload_tree \<Rightarrow> (string \<rightharpoonup> 'ix) \<Rightarrow> string list \<times> (string \<rightharpoonup> 'ix)"
  add_files_to_knowledge_vector_store ::
    "string \<Rightarrow> string list \<Rightarrow> upload_tree \<Rightarrow> (string \<rightharpoonup> 'ix) \<Rightarrow> string list \<times> (string \<rightharpoonup> 'ix)"
  get_knowledge_based_answer ::
    "string \<Rightarrow> string \<Rightarrow> history \<Rightarrow> (string \<rightharpoonup> 'ix) \<Rightarrow> (resp \<times> history) list"

record 'ix state =
  upload_root :: upload_tree
  vector_store :: "string \<rightharpoonup> 'ix"
  calls :: "engine_call list"

subsection \<open>File system operations on the upload tree\<close>

text \<open>
  The operations take the knowledge base id and the file name where the code takes the
  joined path, and look both up as given: they are the operations of \<^verbatim>\<open>os\<close> for
  plain names. For a name with a separator \<^verbatim>\<open>open\<close> would raise and the lookups
  would resolve the path; that is outside these definitions, and the general theorems
  exclude it by \<open>plain\<close>.
\<close>

definition folder :: "'ix state \<Rightarrow> string \<Rightarrow> directory option" where
  "folder st kb = (case upload_root st of None \<Rightarrow> None | Some r \<Rightarrow> map_of r kb)"

definition file_at :: "'ix state \<Rightarrow> string \<Rightarrow> string \<Rightarrow> bytes option" where
  "file_at st kb name = (case folder st kb of None \<Rightarrow> None | Some d \<Rightarrow> map_of d name)"

definition exists_folder :: "'ix state \<Rightarrow> string \<Rightarrow> bool" where
  "exists_folder st kb = (folder st kb \<noteq> None)"

definition exists_file :: "'ix state \<Rightarrow> string \<Rightarrow> string \<Rightarrow> bool" where
  "exists_file st kb name = (file_at st kb name \<noteq> None)"

definition getsize :: "'ix state \<Rightarrow> string \<Rightarrow> string \<Rightarrow> nat" where
  "getsize st kb name = (case file_at st kb name of None \<Rightarrow> 0 | Some c \<Rightarrow> length c)"

definition listdir :: "'ix state \<Rightarrow> string \<Rightarrow> string list" where
  "listdir st kb = (case folder st kb of None \<Rightarrow> [] | Some d \<Rightarrow> map fst d)"

definition put_folder :: "string \<Rightarrow> directory \<Rightarrow> 'ix state \<Rightarrow> 'ix state" where
  "put_folder kb d st =
     st\<lparr>upload_root :=
          Some (AList.update kb d (case upload_root st of None \<Rightarrow> [] | Some r \<Rightarrow> r))\<rparr>"

text \<open>\<^verbatim>\<open>os.makedirs\<close> creates the root as well; the handlers call it on an absent folder only.\<close>

definition makedirs :: "string \<Rightarrow> 'ix state \<Rightarrow> 'ix state" where
  "makedirs kb st = put_folder kb [] st"

text \<open>\<^verbatim>\<open>open(path, "wb")\<close> truncates; \<^verbatim>\<open>open(path, "ab+")\<close> appends.\<close>

definition write_wb :: "string \<Rightarrow> string \<Rightarrow> bytes \<Rightarrow> 'ix state \<Rightarrow> 'ix state" where
  "write_wb kb name content st =
     (case folder st kb of
        None \<Rightarrow> st
      | Some d \<Rightarrow> put_folder kb (AList.update name content d) st)"

definition write_ab :: "string \<Rightarrow> string \<Rightarrow> bytes \<Rightarrow> 'ix state \<Rightarrow> 'ix state" where
  "write_ab kb name content st =
     (case folder st kb of
        None \<Rightarrow> st
      | Some d \<Rightarrow>
          put_folder kb
            (AList.update name ((case map_of d name of None \<Rightarrow> [] | Some old \<Rightarrow> old) @ content) d)
            st)"

definition remove_file :: "string \<Rightarrow> string \<Rightarrow> 'ix state \<Rightarrow> 'ix state" where
  "remove_file kb name st =
     (case folder st kb of
        None \<Rightarrow> st
      | Some d \<Rightarrow> put_folder kb (AList.delete name d) st)"

text \<open>\<^verbatim>\<open>shutil.rmtree(path, ignore_errors)\<close>: an absent path is an error unless ignored.\<close>

definition rmtree :: "bool \<Rightarrow> string \<Rightarrow> 'ix state \<Rightarrow> error + 'ix state" where
  "rmtree ignore_errors kb st =
     (case upload_root st of
        None \<Rightarrow> (if ignore_errors then Inr st else Inl FileNotFoundError)
      | Some r \<Rightarrow>
          (if map_of r kb = None
           then (if ignore_errors then Inr st else Inl FileNotFoundError)
           else Inr (st\<lparr>upload_root := Some (AList.delete kb r)\<rparr>)))"

subsection \<open>Listing and deleting documents\<close>

definition list_docs :: "'ix state \<Rightarrow> string option \<Rightarrow> response" where
  "list_docs st knowledge_base_id =
     (case knowledge_base_id of
        Some kb \<Rightarrow>
          (if kb \<noteq> [] then
             (if \<not> exists_folder st kb then Dict 1 (Msg_kb_not_found kb)
              else ListDocsResponse 200 Msg_success
                     (filter (\<lambda>doc. exists_file st kb doc) (listdir st kb)))
           else ListDocsResponse 200 Msg_success
                  (case upload_root st of None \<Rightarrow> [] | Some r \<Rightarrow> map fst r))
      | None \<Rightarrow>
          ListDocsResponse 200 Msg_success
            (case upload_root st of None \<Rightarrow> [] | Some r \<Rightarrow> map fst r))"

text \<open>
  The tail of \<^verbatim>\<open>delete_docs\<close> after the document is removed (lines 197 to 203): the
  remaining documents are listed, and the test
  \<^verbatim>\<open>remain_docs["code"] != 0 or len(remain_docs["data"]) == 0\<close> chooses between
  removing the folder and rebuilding the index from the folder.
\<close>

definition delete_docs_rebuild ::
  "config \<Rightarrow> 'ix local_doc_qa \<Rightarrow> string \<Rightarrow> 'ix state \<Rightarrow> (error + response) \<times> 'ix state" where
  "delete_docs_rebuild cfg qa kb st =
     (let remain_docs = list_docs st (Some kb);
          remove_all = (\<lambda>u::unit.
             case rmtree True kb st of
               Inl e \<Rightarrow> (Inl e, st)
             | Inr st' \<Rightarrow> (Inr (BaseResponse 200 Msg_success), st'));
          rebuild = (\<lambda>u::unit.
             let (loaded, vs') =
                   init_knowledge_vector_store qa (Folder (get_folder_path cfg kb))
                     (get_vs_path cfg kb) (upload_root st) (vector_store st)
             in (Inr (BaseResponse 200 Msg_success),
                 st\<lparr>vector_store := vs',
                    calls := calls st @
                      [Init_knowledge_vector_store (Folder (get_folder_path cfg kb))
                         (get_vs_path cfg kb)]\<rparr>))
      in case getitem remain_docs ''code'' of
           Inl e \<Rightarrow> (Inl e, st)
         | Inr c \<Rightarrow>
             if c \<noteq> PyInt 0 then remove_all ()
             else (case getitem remain_docs ''data'' of
                     Inl e \<Rightarrow> (Inl e, st)
                   | Inr d \<Rightarrow>
                       (case py_len d of
                          Inl e \<Rightarrow> (Inl e, st)
                        | Inr n \<Rightarrow> if n = 0 then remove_all () else rebuild ())))"

definition delete_docs ::
  "config \<Rightarrow> 'ix local_doc_qa \<Rightarrow> string \<Rightarrow> string option \<Rightarrow> 'ix state
     \<Rightarrow> (error + response) \<times> 'ix state" where
  "delete_docs cfg qa knowledge_base_id doc_name st =
     (if \<not> exists_folder st knowledge_base_id
      then (Inr (Dict 1 (Msg_kb_not_found knowledge_base_id)), st)
      else if doc_name \<noteq> None \<and> doc_name \<noteq> Some []
      then (let name = the doc_name in
            if exists_file st knowledge_base_id name
            then delete_docs_rebuild cfg qa knowledge_base_id
                   (remove_file knowledge_base_id name st)
            else (Inr (Dict 1 (Msg_doc_not_found name)), st))
      else (case rmtree False knowledge_base_id st of
              Inl e \<Rightarrow> (Inl e, st)
            | Inr st' \<Rightarrow> (Inr (BaseResponse 200 Msg_success), st')))"

subsection \<open>Uploading documents\<close>

record upload_file_obj =
  filename :: string
  file_content :: bytes

text \<open>
  The duplicate test of both upload handlers (lines 103 and 140): a file of that name
  exists and has the byte length of the upload.
\<close>

definition is_duplicate :: "'ix state \<Rightarrow> string \<Rightarrow> upload_file_obj \<Rightarrow> bool" where
  "is_duplicate st kb file =
     (exists_file st kb (filename file) \<and>
      getsize st kb (filename file) = length (file_content file))"

definition single_upload_file ::
  "config \<Rightarrow> 'ix local_doc_qa \<Rightarrow> upload_file_obj \<Rightarrow> string \<Rightarrow> 'ix state
     \<Rightarrow> response \<times> 'ix state" where
  "single_upload_file cfg qa file knowledge_base_id st =
     (let saved_path = get_folder_path cfg knowledge_base_id;
          st1 = (if \<not> exists_folder st knowledge_base_id
                 then makedirs knowledge_base_id st else st);
          file_path = path_join saved_path (filename file)
      in if is_duplicate st1 knowledge_base_id file
         then (BaseResponse 200 (Msg_file_exists (filename file)), st1)
         else
           (let st2 = write_wb knowledge_base_id (filename file) (file_content file) st1;
                vs_path = get_vs_path cfg knowledge_base_id
            in if vector_store st2 vs_path \<noteq> None
               then
                 (let (added_files, vs') =
                        add_files_to_knowledge_vector_store qa vs_path [file_path]
                          (upload_root st2) (vector_store st2);
                      st3 = st2\<lparr>vector_store := vs',
                               calls := calls st2 @
                                 [Add_files_to_knowledge_vector_store vs_path [file_path]]\<rparr>
                  in if length added_files > 0
                     then (BaseResponse 200 (Msg_uploaded_added (filename file)), st3)
                     else (BaseResponse 500 Msg_upload_failed, st3))
               else
                 (let (loaded_files, vs') =
                        init_knowledge_vector_store qa (Paths [file_path]) vs_path
                          (upload_root st2) (vector_store st2);
                      st3 = st2\<lparr>vector_store := vs',
                               calls := calls st2 @
                                 [Init_knowledge_vector_store (Paths [file_path]) vs_path]\<rparr>
                  in if length loaded_files > 0
                     then (BaseResponse 200 (Msg_uploaded_new (filename file)), st3)
                     else (BaseResponse 500 Msg_upload_failed, st3))))"

text \<open>The loop of \<^verbatim>\<open>upload_file\<close> (lines 136 to 144), with its list of written paths.\<close>

fun upload_loop ::
  "config \<Rightarrow> string \<Rightarrow> upload_file_obj list \<Rightarrow> string list \<Rightarrow> 'ix state
     \<Rightarrow> string list \<times> 'ix state" where
  "upload_loop cfg kb [] filelist st = (filelist, st)"
| "upload_loop cfg kb (file # files) filelist st =
     (let file_path = path_join (get_folder_path cfg kb) (filename file)
      in if is_duplicate st kb file
         then upload_loop cfg kb files filelist st
         else upload_loop cfg kb files (filelist @ [file_path])
                (write_ab kb (filename file) (file_content file) st))"

definition upload_file ::
  "config \<Rightarrow> 'ix local_doc_qa \<Rightarrow> upload_file_obj list \<Rightarrow> string \<Rightarrow> 'ix state
     \<Rightarrow> response \<times> 'ix state" where
  "upload_file cfg qa files knowledge_base_id st =
     (let st1 = (if \<not> exists_folder st knowledge_base_id
                 then makedirs knowledge_base_id st else st);
          (filelist, st2) = upload_loop cfg knowledge_base_id files [] st1
      in if filelist \<noteq> []
         then
           (let (loaded_files, vs') =
                  init_knowledge_vector_store qa (Paths filelist)
                    (get_vs_path cfg knowledge_base_id) (upload_root st2) (vector_store st2);
                st3 = st2\<lparr>vector_store := vs',
                         calls := calls st2 @
                           [Init_knowledge_vector_store (Paths filelist)
                              (get_vs_path cfg knowledge_base_id)]\<rparr>
            in if length loaded_files \<noteq> 0
               then (BaseResponse 200 (Msg_loaded (map split_last loaded_files)), st3)
               else (BaseResponse 500 Msg_not_loaded, st3))
         else (BaseResponse 500 Msg_not_loaded, st2))"

subsection \<open>Single-shot chat\<close>

text \<open>
  A rendered source citation (lines 233 and 288): the ordinal, the last component of the
  source path, the excerpt and the score.
\<close>

datatype citation = Citation nat string string string

fun render_sources :: "nat \<Rightarrow> document list \<Rightarrow> citation list" where
  "render_sources inum [] = []"
| "render_sources inum (doc # docs) =
     Citation (inum + 1) (split_last (source doc)) (page_content doc) (score doc)
       # render_sources (inum + 1) docs"

datatype chat_message = ChatMessage string string history "citation list"

text \<open>
  \<^verbatim>\<open>for resp, history in ...: pass\<close>: the loop variables keep the last pair, and
  keep what they held before when the sequence is empty.
\<close>

fun drain :: "(resp \<times> history) list \<Rightarrow> resp option \<Rightarrow> history \<Rightarrow> resp option \<times> history" where
  "drain [] r h = (r, h)"
| "drain ((r', h') # ps) r h = drain ps (Some r') h'"

text \<open>Line 224: the index location of \<^verbatim>\<open>chat\<close>, whatever the knowledge base id.\<close>

definition chat_vs_path :: "config \<Rightarrow> string \<Rightarrow> string" where
  "chat_vs_path cfg knowledge_base_id =
     ''/root/github/langchain-ChatGLM/vector_store/test_case_v5''"

definition chat ::
  "config \<Rightarrow> 'ix local_doc_qa \<Rightarrow> string \<Rightarrow> string \<Rightarrow> history \<Rightarrow> 'ix state
     \<Rightarrow> error + chat_message" where
  "chat cfg qa knowledge_base_id question hist st =
     (let vs_path = chat_vs_path cfg knowledge_base_id
      in if vector_store st vs_path = None
         then Inl (ValueError_not_found knowledge_base_id)
         else
           (case drain (get_knowledge_based_answer qa question vs_path hist (vector_store st))
                   None hist of
              (None, h) \<Rightarrow> Inl UnboundLocalError
            | (Some r, h) \<Rightarrow>
                Inr (ChatMessage question (result r) h
                       (render_sources 0 (source_documents r)))))"

subsection \<open>Streaming chat\<close>

text \<open>
  What the handler does on the websocket, in order. The frames: the error object of
  line 270, the start marker of line 278, an answer text of line 284 and the end marker
  of line 293. \<open>Raised\<close> ends a run with an exception; the client closing the
  connection makes \<^verbatim>\<open>receive_text\<close> raise \<^verbatim>\<open>WebSocketDisconnect\<close>.
\<close>

datatype frame =
    Error_frame msg
  | Start_frame string nat
  | Text_frame string
  | End_frame string nat "citation list"

datatype event = Accept | Send frame | Receive string | Close | Raised error

text \<open>
  Lines 280 to 285: each partial sends what follows the length of the previous one.
  The result is the texts sent and the last bindings of \<^verbatim>\<open>resp\<close> and
  \<^verbatim>\<open>history\<close>.
\<close>

fun answer_stream ::
  "(resp \<times> history) list \<Rightarrow> nat \<Rightarrow> resp option \<Rightarrow> history
     \<Rightarrow> string list \<times> resp option \<times> history" where
  "answer_stream [] last_print_len r h = ([], r, h)"
| "answer_stream ((r', h') # ps) last_print_len r h =
     (case answer_stream ps (length (result r')) (Some r') h' of
        (sent, rf, hf) \<Rightarrow> (drop last_print_len (result r') # sent, rf, hf))"

text \<open>
  The loop of lines 276 to 304 over the questions the client sends before it closes
  the connection.
\<close>

fun stream_chat_loop ::
  "'ix local_doc_qa \<Rightarrow> (string \<rightharpoonup> 'ix) \<Rightarrow> string \<Rightarrow> history \<Rightarrow> nat \<Rightarrow> resp option
     \<Rightarrow> string list \<Rightarrow> event list" where
  "stream_chat_loop qa vs vs_path hist turn r [] = [Raised WebSocketDisconnect]"
| "stream_chat_loop qa vs vs_path hist turn r (question # questions) =
     (case answer_stream (get_knowledge_based_answer qa question vs_path hist vs) 0 r hist of
        (sent, rf, hf) \<Rightarrow>
          [Receive question, Send (Start_frame question turn)]
          @ map (\<lambda>t. Send (Text_frame t)) sent
          @ (case rf of
               None \<Rightarrow> [Raised UnboundLocalError]
             | Some resp \<Rightarrow>
                 Send (End_frame question turn (render_sources 0 (source_documents resp)))
                   # stream_chat_loop qa vs vs_path hf (turn + 1) rf questions))"

definition stream_chat ::
  "config \<Rightarrow> 'ix local_doc_qa \<Rightarrow> string \<Rightarrow> 'ix state \<Rightarrow> string list \<Rightarrow> event list" where
  "stream_chat cfg qa knowledge_base_id st questions =
     (let vs_path = path_join (VS_ROOT_PATH cfg) knowledge_base_id
      in Accept #
         (if vector_store st vs_path = None
          then [Send (Error_frame (Msg_kb_not_found knowledge_base_id)), Close]
          else stream_chat_loop qa (vector_store st) vs_path [] 1 None questions))"

subsection \<open>The webhook\<close>

text \<open>
  The values of \<^verbatim>\<open>Dict[str, Any]\<close> that the handler looks into: strings and nested
  objects, anything else as \<open>JNull\<close>.
\<close>

datatype json = JNull | JStr string | JObj "(string \<times> json) list"

record FeiShu =
  challenge :: "string option"
  type :: "string option"
  token :: "string option"
  header :: "json option"
  event :: "json option"

text \<open>\<^verbatim>\<open>v[key]\<close> on such a value: only an object is subscriptable by a string.\<close>

fun json_getitem :: "json \<Rightarrow> string \<Rightarrow> error + json" where
  "json_getitem (JObj kvs) k = (case map_of kvs k of None \<Rightarrow> Inl KeyError | Some v \<Rightarrow> Inr v)"
| "json_getitem JNull k = Inl TypeError"
| "json_getitem (JStr s) k = Inl TypeError"

text \<open>
  The messaging platform and the JSON parser are outside the program:
  \<^verbatim>\<open>json.loads\<close>, and \<^verbatim>\<open>feishu_auth\<close> as the token it returns or the exception it
  raises.
\<close>

record platform =
  json_loads :: "string \<Rightarrow> error + json"
  feishu_auth :: "error + string"

text \<open>
  The reply the background task posts (lines 344 to 353): the message id in the URL,
  the content and the bearer token. The task takes the question from a content that is
  a string and a \<^verbatim>\<open>text\<close> that is a string; anything else is a \<^verbatim>\<open>TypeError\<close>
  here. The message id is looked up at line 343, after the answer loop and before
  \<^verbatim>\<open>resp\<close> is read at line 345.
\<close>

datatype reply = Reply json string string

text \<open>\<^verbatim>\<open>s.replace("\n", "\\n")\<close>: a line feed becomes a backslash and the letter n.\<close>

definition escape_newlines :: "string \<Rightarrow> string" where
  "escape_newlines s = concat (map (\<lambda>c. if c = CHR 0x0A then [CHR 0x5C, CHR ''n''] else [c]) s)"

definition feishu_vs_path :: string where
  "feishu_vs_path = ''/root/github/langchain-ChatGLM/vector_store/test_case_v5''"

definition feishu_event_async ::
  "platform \<Rightarrow> 'ix local_doc_qa \<Rightarrow> 'ix state \<Rightarrow> FeiShu \<Rightarrow> error + reply" where
  "feishu_event_async pf qa st fei_shu =
     (case json_getitem (case event fei_shu of None \<Rightarrow> JNull | Some e \<Rightarrow> e) ''message'' of
        Inl e \<Rightarrow> Inl e
      | Inr message \<Rightarrow>
     (case json_getitem message ''content'' of
        Inl e \<Rightarrow> Inl e
      | Inr content \<Rightarrow>
     (case content of
        JNull \<Rightarrow> Inl TypeError
      | JObj kvs \<Rightarrow> Inl TypeError
      | JStr text \<Rightarrow>
     (case json_loads pf text of
        Inl e \<Rightarrow> Inl e
      | Inr parsed \<Rightarrow>
     (case json_getitem parsed ''text'' of
        Inl e \<Rightarrow> Inl e
      | Inr q \<Rightarrow>
     (case q of
        JNull \<Rightarrow> Inl TypeError
      | JObj kvs \<Rightarrow> Inl TypeError
      | JStr query \<Rightarrow>
     (if vector_store st feishu_vs_path = None
      then Inl (ValueError_not_found feishu_vs_path)
      else
     (case json_getitem message ''message_id'' of
        Inl e \<Rightarrow> Inl e
      | Inr message_id \<Rightarrow>
     (case drain (get_knowledge_based_answer qa query feishu_vs_path [] (vector_store st))
             None [] of
        (None, h) \<Rightarrow> Inl UnboundLocalError
      | (Some r, h) \<Rightarrow>
     (case feishu_auth pf of
        Inl e \<Rightarrow> Inl e
      | Inr tenant_access_token \<Rightarrow>
          Inr (Reply message_id
                 (''{'' @ [CHR 0x22] @ ''text'' @ [CHR 0x22] @ '':'' @ [CHR 0x22]
                    @ escape_newlines (result r) @ [CHR 0x22] @ ''}'')
                 (''Bearer '' @ tenant_access_token))))))))))))"

text \<open>
  \<^verbatim>\<open>asyncio.create_task\<close> schedules the coroutine and returns at once; the handler has
  no suspension point after it, so it returns before the task runs. The handler gives
  back its return value and the tasks it scheduled; \<open>serve_feishu_event\<close> is the event
  loop running them afterwards.
\<close>

datatype task = Feishu_event_async FeiShu

definition feishu_event :: "FeiShu \<Rightarrow> FeiShu \<times> task list" where
  "feishu_event fei_shu = (fei_shu, [Feishu_event_async fei_shu])"

fun run_task :: "platform \<Rightarrow> 'ix local_doc_qa \<Rightarrow> 'ix state \<Rightarrow> task \<Rightarrow> error + reply" where
  "run_task pf qa st (Feishu_event_async fei_shu) = feishu_event_async pf qa st fei_shu"

definition serve_feishu_event ::
  "platform \<Rightarrow> 'ix local_doc_qa \<Rightarrow> 'ix state \<Rightarrow> FeiShu \<Rightarrow> FeiShu \<times> (error + reply) list" where
  "serve_feishu_event pf qa st fei_shu =
     (case feishu_event fei_shu of
        (returned, tasks) \<Rightarrow> (returned, map (run_task pf qa st) tasks))"

subsection \<open>Observations on a run\<close>



text \<open>
  The contract of the answer sequence: every partial carries the whole text so far, and
  each is strictly longer than the one before.
\<close>

fun growing :: "string list \<Rightarrow> bool" where
  "growing [] = True"
| "growing [x] = True"
| "growing (x # y # zs) = (strict_prefix x y \<and> growing (y # zs))"

text \<open>The markers of a run, with the value of their \<^verbatim>\<open>flag\<close> and their turn number.\<close>

fun markers :: "event list \<Rightarrow> (string \<times> nat) list" where
  "markers [] = []"
| "markers (Send (Start_frame q n) # es) = (''start'', n) # markers es"
| "markers (Send (End_frame q n c) # es) = (''end'', n) # markers es"
| "markers (e # es) = markers es"

text \<open>The markers of \<open>n\<close> complete turns numbered from \<open>t\<close>.\<close>

definition markers_from :: "nat \<Rightarrow> nat \<Rightarrow> (string \<times> nat) list" where
  "markers_from t n = concat (map (\<lambda>i. [(''start'', i), (''end'', i)]) [t..<t + n])"

text \<open>
  A run is sequential when a question is received only while the session is waiting
  for one: at its start, and after the end marker of the turn before.
\<close>

fun sequential :: "bool \<Rightarrow> event list \<Rightarrow> bool" where
  "sequential waiting [] = True"
| "sequential waiting (Receive q # es) = (waiting \<and> sequential False es)"
| "sequential waiting (Send (End_frame q n c) # es) = sequential True es"
| "sequential waiting (e # es) = sequential waiting es"

fun received :: "event list \<Rightarrow> string list" where
  "received [] = []"
| "received (Receive q # es) = q # received es"
| "received (e # es) = received es"

text \<open>The answer texts of a run from its start up to the first end marker.\<close>

fun texts_until_end :: "event list \<Rightarrow> string list" where
  "texts_until_end [] = []"
| "texts_until_end (Send (Text_frame t) # es) = t # texts_until_end es"
| "texts_until_end (Send (End_frame q n c) # es) = []"
| "texts_until_end (e # es) = texts_until_end es"

subsection \<open>Concrete configurations, engines and stores\<close>

definition example_config :: config where
  "example_config = \<lparr>UPLOAD_ROOT_PATH = ''content'', VS_ROOT_PATH = ''vector_store''\<rparr>"

text \<open>
  An engine that incorporates every file it is given and leaves an index at the
  location, and answers in two partials; and one that incorporates nothing.
\<close>

definition accepting_qa :: "unit local_doc_qa" where
  "accepting_qa =
     \<lparr>init_knowledge_vector_store =
        (\<lambda>files vs_path tree vs.
           ((case files of Paths ps \<Rightarrow> ps | Folder f \<Rightarrow> [f]), vs(vs_path \<mapsto> ()))),
      add_files_to_knowledge_vector_store = (\<lambda>vs_path ps tree vs. (ps, vs)),
      get_knowledge_based_answer =
        (\<lambda>query vs_path hist vs.
           [(\<lparr>result = ''an'', source_documents = []\<rparr>, hist @ [[query, ''an'']]),
            (\<lparr>result = ''answer'',
              source_documents =
                [\<lparr>source = ''content/kb1/a.txt'', page_content = ''abc'', score = ''7''\<rparr>]\<rparr>,
             hist @ [[query, ''answer'']])])\<rparr>"


definition empty_store :: "unit state" where
  "empty_store = \<lparr>upload_root = None, vector_store = Map.empty, calls = []\<rparr>"

definition two_docs_store :: "unit state" where
  "two_docs_store =
     \<lparr>upload_root = Some [(''kb1'', [(''a.txt'', ''abc''), (''b.txt'', ''wxyz'')])],
      vector_store = [''vector_store/kb1'' \<mapsto> ()],
      calls = []\<rparr>"

definition one_doc_store :: "unit state" where
  "one_doc_store =
     \<lparr>upload_root = Some [(''kb1'', [(''a.txt'', ''abc'')])],
      vector_store = Map.empty,
      calls = []\<rparr>"

definition fixed_index_store :: "unit state" where
  "fixed_index_store =
     \<lparr>upload_root = None,
      vector_store = [''/root/github/langchain-ChatGLM/vector_store/test_case_v5'' \<mapsto> ()],
      calls = []\<rparr>"

definition kb1_index_store :: "unit state" where
  "kb1_index_store =
     \<lparr>upload_root = Some [(''kb1'', [(''a.txt'', ''abc'')])],
      vector_store = [''vector_store/kb1'' \<mapsto> ()],
      calls = []\<rparr>"

definition a_txt :: upload_file_obj where
  "a_txt = \<lparr>filename = ''a.txt'', file_content = ''abc''\<rparr>"

definition a_txt_longer :: upload_file_obj where
  "a_txt_longer = \<lparr>filename = ''a.txt'', file_content = ''defgh''\<rparr>"

text \<open>A handshake event of the platform, of the shape of the comment of line 319.\<close>

definition handshake_envelope :: FeiShu where
  "handshake_envelope =
     \<lparr>challenge = Some ''c1'', type = Some ''url_verification'', token = Some ''t1'',
      header = None, event = None\<rparr>"

text \<open>
  This one definition follows the words of the specification, not the source: the plain
  acknowledgement value of a handshake, which echoes the challenge and carries nothing
  else of the envelope. The source has no counterpart; it is here to be compared with
  what \<open>feishu_event\<close> returns.
\<close>

definition spec_plain_acknowledgement :: "FeiShu \<Rightarrow> FeiShu" where
  "spec_plain_acknowledgement fei_shu =
     \<lparr>challenge = challenge fei_shu, type = None, token = None, header = None, event = None\<rparr>"

section \<open>Properties\<close>

subsection \<open>The upload tree\<close>

lemma folder_put_folder [simp]:
  "folder (put_folder kb d st) kb' = (if kb' = kb then Some d else folder st kb')"
  by (simp add: folder_def put_folder_def update_conv' split: option.splits)

lemma vector_store_put_folder [simp]: "vector_store (put_folder kb d st) = vector_store st"
  by (simp add: put_folder_def)

lemma calls_put_folder [simp]: "calls (put_folder kb d st) = calls st"
  by (simp add: put_folder_def)

lemma calls_remove_file [simp]: "calls (remove_file kb name st) = calls st"
  by (simp add: remove_file_def split: option.splits)

lemma calls_rmtree: "rmtree ign kb st = Inr st' \<Longrightarrow> calls st' = calls st"
  by (auto simp: rmtree_def split: option.splits if_splits)

subsection \<open>Deleting a document\<close>

text \<open>
  \<^verbatim>\<open>list_docs\<close> never answers with a code 0: its dict has code 1 and its model has
  code 200, and the model is not subscriptable. So the test of line 198 never reaches
  the rebuild of line 201, and no call of \<^verbatim>\<open>delete_docs\<close> asks the engine for
  anything.
\<close>

lemma list_docs_code_not_zero: "getitem (list_docs st (Some kb)) ''code'' \<noteq> Inr (PyInt 0)"
  by (simp add: list_docs_def)

lemma list_docs_existing_folder:
  "exists_folder st kb \<Longrightarrow> kb \<noteq> [] \<Longrightarrow> response_code (list_docs st (Some kb)) = 200"
  by (simp add: list_docs_def)

lemma delete_docs_rebuild_calls: "calls (snd (delete_docs_rebuild cfg qa kb st)) = calls st"
proof (cases "getitem (list_docs st (Some kb)) ''code''")
  case (Inl e)
  then show ?thesis by (simp add: delete_docs_rebuild_def)
next
  case (Inr c)
  with list_docs_code_not_zero [of st kb] have "c \<noteq> PyInt 0" by auto
  with Inr show ?thesis
    by (auto simp: delete_docs_rebuild_def split: sum.splits dest: calls_rmtree)
qed

lemma delete_docs_never_rebuilds:
  "calls (snd (delete_docs cfg qa kb doc_name st)) = calls st"
  by (auto simp: delete_docs_def delete_docs_rebuild_calls split: sum.splits dest: calls_rmtree)

text \<open>
  C1. The claim: deleting an existing document of a knowledge base with at least two
  documents removes that file only, keeps the folder and rebuilds the index from the
  remaining files; deleting the last document removes the whole folder. The code at two
  inputs: from the folder holding \<^verbatim>\<open>a.txt\<close> and \<^verbatim>\<open>b.txt\<close>, deleting
  \<^verbatim>\<open>a.txt\<close> removes the file and then raises \<^verbatim>\<open>TypeError\<close> at line 198, with no
  call of the engine; from the folder holding \<^verbatim>\<open>a.txt\<close> alone, it raises as well
  and the emptied folder stays.
\<close>

theorem delete_docs_raises_instead_of_rebuilding:
  "delete_docs example_config accepting_qa ''kb1'' (Some ''a.txt'') two_docs_store =
     (Inl TypeError, two_docs_store\<lparr>upload_root := Some [(''kb1'', [(''b.txt'', ''wxyz'')])]\<rparr>)
   \<and> delete_docs example_config accepting_qa ''kb1'' (Some ''a.txt'') one_doc_store =
     (Inl TypeError, one_doc_store\<lparr>upload_root := Some [(''kb1'', [])]\<rparr>)"
  by (simp add: delete_docs_def delete_docs_rebuild_def list_docs_def exists_folder_def
      exists_file_def file_at_def folder_def remove_file_def put_folder_def
      two_docs_store_def one_doc_store_def AList.delete_eq)

subsection \<open>Uploading\<close>



lemma exists_folder_makedirs [simp]: "exists_folder (makedirs kb st) kb"
  by (simp add: exists_folder_def makedirs_def)

lemma vector_store_makedirs [simp]: "vector_store (makedirs kb st) = vector_store st"
  by (simp add: makedirs_def)

lemma calls_makedirs [simp]: "calls (makedirs kb st) = calls st"
  by (simp add: makedirs_def)

lemma vector_store_write_wb [simp]: "vector_store (write_wb kb n c st) = vector_store st"
  by (simp add: write_wb_def split: option.splits)

lemma calls_write_wb [simp]: "calls (write_wb kb n c st) = calls st"
  by (simp add: write_wb_def split: option.splits)

lemma file_at_index_update [simp]:
  "file_at (st\<lparr>vector_store := vs, calls := cs\<rparr>) kb name = file_at st kb name"
  by (simp add: file_at_def folder_def)

lemma is_duplicate_exists_folder: "is_duplicate st kb file \<Longrightarrow> exists_folder st kb"
  by (auto simp: is_duplicate_def exists_file_def file_at_def exists_folder_def split: option.splits)






text \<open>In a folder with distinct names a stored file is listed once.\<close>

lemma count_list_distinct: "distinct xs \<Longrightarrow> x \<in> set xs \<Longrightarrow> count_list xs x = 1"
  by (induction xs) (auto simp: count_list_0_iff)

lemma listed_once:
  "distinct (map fst d) \<Longrightarrow> folder st kb = Some d \<Longrightarrow> exists_file st kb name \<Longrightarrow>
   count_list (listdir st kb) name = 1"
proof -
  assume d: "distinct (map fst d)" and f: "folder st kb = Some d" and e: "exists_file st kb name"
  from f e have "name \<in> set (map fst d)"
    by (auto simp: exists_file_def file_at_def dest!: map_of_SomeD intro: rev_image_eqI)
  with d f show ?thesis
    by (simp add: listdir_def count_list_distinct)
qed

text \<open>
  The batch handler skips a duplicate at line 141 and leaves the store alone as well,
  but a batch of duplicates only ends at line 151 with code 500.
\<close>

lemma upload_loop_all_duplicates:
  "\<forall>f\<in>set files. is_duplicate st kb f \<Longrightarrow> upload_loop cfg kb files fl st = (fl, st)"
  by (induction files) simp_all

lemma upload_file_all_duplicates:
  "files \<noteq> [] \<Longrightarrow> \<forall>f\<in>set files. is_duplicate st kb f \<Longrightarrow>
   upload_file cfg qa files kb st = (BaseResponse 500 Msg_not_loaded, st)"
proof -
  assume ne: "files \<noteq> []" and dup: "\<forall>f\<in>set files. is_duplicate st kb f"
  from ne dup have "exists_folder st kb"
    by (cases files) (auto dest: is_duplicate_exists_folder)
  with dup show ?thesis
    by (simp add: upload_file_def upload_loop_all_duplicates)
qed

text \<open>
  C3. The claim: uploading a file whose name and byte length match a stored file is a
  no-op reported as a success with a notice, never as an error, and one file of that
  name is on disk afterwards. The code at one input: \<^verbatim>\<open>a.txt\<close> with its three bytes
  is stored; uploading it again through the batch handler leaves the store alone and
  answers with code 500 and the message of line 150, where the single-file handler
  answers with code 200 and the notice of line 104.
\<close>

theorem upload_file_reports_duplicate_as_failure:
  "is_duplicate one_doc_store ''kb1'' a_txt
   \<and> upload_file example_config accepting_qa [a_txt] ''kb1'' one_doc_store =
       (BaseResponse 500 Msg_not_loaded, one_doc_store)
   \<and> single_upload_file example_config accepting_qa a_txt ''kb1'' one_doc_store =
       (BaseResponse 200 (Msg_file_exists ''a.txt''), one_doc_store)"
  by (simp add: upload_file_def single_upload_file_def Let_def is_duplicate_def exists_file_def
      file_at_def folder_def getsize_def exists_folder_def one_doc_store_def a_txt_def)

subsection \<open>What an upload stores\<close>


lemma exists_folder_write_ab [simp]: "exists_folder (write_ab kb n c st) kb = exists_folder st kb"
  by (auto simp: write_ab_def exists_folder_def split: option.splits)

lemma upload_loop_exists_folder:
  "exists_folder st kb \<Longrightarrow> exists_folder (snd (upload_loop cfg kb files fl st)) kb"
  by (induction files arbitrary: fl st) (simp_all add: Let_def)








text \<open>
  The batch handler opens the file for appending (line 142): a stored file of the same
  name and another size keeps its bytes in front of the uploaded ones.
\<close>

lemma upload_file_appends:
  "file_at (snd (upload_file example_config accepting_qa [a_txt_longer] ''kb1'' kb1_index_store))
     ''kb1'' ''a.txt'' = Some ''abcdefgh''"
  by (simp add: upload_file_def Let_def is_duplicate_def exists_file_def file_at_def folder_def
      getsize_def exists_folder_def write_ab_def put_folder_def kb1_index_store_def
      a_txt_longer_def accepting_qa_def)





subsection \<open>Single-shot chat\<close>

text \<open>
  C2. The claim: \<^verbatim>\<open>chat\<close> fails with not-found when the index of the knowledge base
  named by \<^verbatim>\<open>knowledge_base_id\<close> does not exist, and answers otherwise. The code at
  two inputs: \<^verbatim>\<open>kb1\<close> has no index and the fixed location of line 224 exists, and
  the call answers; \<^verbatim>\<open>kb1\<close> has its index and the fixed location is absent, and the
  call raises \<^verbatim>\<open>ValueError\<close>.
\<close>

theorem chat_ignores_knowledge_base_index:
  "vector_store fixed_index_store (get_vs_path example_config ''kb1'') = None
   \<and> chat example_config accepting_qa ''kb1'' ''q'' [] fixed_index_store =
       Inr (ChatMessage ''q'' ''answer'' [[''q'', ''answer'']] [Citation 1 ''a.txt'' ''abc'' ''7''])
   \<and> vector_store kb1_index_store (get_vs_path example_config ''kb1'') \<noteq> None
   \<and> chat example_config accepting_qa ''kb1'' ''q'' [] kb1_index_store =
       Inl (ValueError_not_found ''kb1'')"
  by (simp add: chat_def chat_vs_path_def get_vs_path_def path_join_def example_config_def
      fixed_index_store_def kb1_index_store_def accepting_qa_def split_last_def)

text \<open>
  C10. Two calls of \<^verbatim>\<open>chat\<close> with the same question and history and different
  knowledge base ids resolve the same index location. When that location exists they
  return the same result; when it does not, each raises the \<^verbatim>\<open>ValueError\<close> that
  names its own knowledge base id.
\<close>

theorem chat_same_location_same_answer:
  "chat_vs_path cfg kb1 = chat_vs_path cfg kb2
   \<and> (vector_store st (chat_vs_path cfg kb1) \<noteq> None \<longrightarrow>
        chat cfg qa kb1 question hist st = chat cfg qa kb2 question hist st)
   \<and> (vector_store st (chat_vs_path cfg kb1) = None \<longrightarrow>
        chat cfg qa kb1 question hist st = Inl (ValueError_not_found kb1)
        \<and> chat cfg qa kb2 question hist st = Inl (ValueError_not_found kb2))"
  by (auto simp: chat_def chat_vs_path_def Let_def)

theorem chat_same_location_same_answer_witness:
  "vector_store fixed_index_store (chat_vs_path example_config ''kb1'') \<noteq> None
   \<and> chat example_config accepting_qa ''kb1'' ''q'' [] fixed_index_store
       = chat example_config accepting_qa ''kb2'' ''q'' [] fixed_index_store
   \<and> vector_store empty_store (chat_vs_path example_config ''kb1'') = None
   \<and> chat example_config accepting_qa ''kb1'' ''q'' [] empty_store = Inl (ValueError_not_found ''kb1'')"
proof -
  have h1: "vector_store fixed_index_store (chat_vs_path example_config ''kb1'') \<noteq> None"
    by (simp add: fixed_index_store_def chat_vs_path_def)
  have h2: "vector_store empty_store (chat_vs_path example_config ''kb1'') = None"
    by (simp add: empty_store_def)
  show ?thesis
    using h1 h2
      chat_same_location_same_answer [of example_config "''kb1''" "''kb2''" fixed_index_store
        accepting_qa "''q''" "[]"]
      chat_same_location_same_answer [of example_config "''kb1''" "''kb2''" empty_store
        accepting_qa "''q''" "[]"]
    by simp
qed

text \<open>
  The claim as written has the two calls produce identical results. With the fixed
  location absent, the two exceptions differ in the knowledge base id they name.
\<close>

theorem chat_error_names_knowledge_base:
  "chat example_config accepting_qa ''kb1'' ''q'' [] empty_store
     \<noteq> chat example_config accepting_qa ''kb2'' ''q'' [] empty_store"
  by (simp add: chat_def chat_vs_path_def empty_store_def)

subsection \<open>Opening a streaming session\<close>

text \<open>
  C8. A streaming session opened on a knowledge base id with no index location sends
  one error frame and closes the channel, and receives no question.
\<close>

theorem stream_chat_unknown_knowledge_base:
  assumes "vector_store st (get_vs_path cfg kb) = None"
  shows "stream_chat cfg qa kb st questions =
           [Accept, Send (Error_frame (Msg_kb_not_found kb)), Close]
         \<and> received (stream_chat cfg qa kb st questions) = []"
  using assms by (simp add: stream_chat_def get_vs_path_def)

theorem stream_chat_unknown_knowledge_base_witness:
  "vector_store kb1_index_store (get_vs_path example_config ''kb2'') = None
   \<and> stream_chat example_config accepting_qa ''kb2'' kb1_index_store [''q1'', ''q2''] =
       [Accept, Send (Error_frame (Msg_kb_not_found ''kb2'')), Close]
   \<and> received (stream_chat example_config accepting_qa ''kb2'' kb1_index_store [''q1'', ''q2'']) = []"
proof -
  have h: "vector_store kb1_index_store (get_vs_path example_config ''kb2'') = None"
    by (simp add: kb1_index_store_def get_vs_path_def path_join_def example_config_def)
  show ?thesis
    using h stream_chat_unknown_knowledge_base [OF h, of accepting_qa "[''q1'', ''q2'']"]
    by simp
qed

subsection \<open>The webhook\<close>

text \<open>A handshake envelope has no event: the background task raises at line 332.\<close>

lemma handshake_task_raises:
  "event fei_shu = None \<Longrightarrow>
   serve_feishu_event pf qa st fei_shu = (fei_shu, [Inl TypeError])"
  by (simp add: serve_feishu_event_def feishu_event_def feishu_event_async_def)

text \<open>
  C9. For every inbound event, the handshake event included, the handler returns the
  received envelope as it came, so a handshake is answered with its challenge together
  with its type and token and not with a plain acknowledgement; it schedules the
  background task without running it, and what it returns is the same whatever the
  platform, the engine and the store make of that task.
\<close>

theorem feishu_event_returns_envelope:
  "fst (feishu_event fei_shu) = fei_shu
   \<and> snd (feishu_event fei_shu) = [Feishu_event_async fei_shu]
   \<and> fst (serve_feishu_event pf qa st fei_shu) = fei_shu
   \<and> challenge (fst (serve_feishu_event pf qa st fei_shu)) = challenge fei_shu"
  by (simp add: feishu_event_def serve_feishu_event_def)

text \<open>
  The claim as written gives the handshake event the plain acknowledgement value. Lines
  357 to 361 have no branch for the handshake: what comes back for it is the whole
  envelope, type and token included, and not the challenge alone.
\<close>

theorem handshake_returns_whole_envelope:
  "type handshake_envelope = Some ''url_verification''
   \<and> fst (feishu_event handshake_envelope) \<noteq> spec_plain_acknowledgement handshake_envelope
   \<and> type (fst (feishu_event handshake_envelope)) = Some ''url_verification''
   \<and> token (fst (feishu_event handshake_envelope)) = Some ''t1''"
  by (simp add: feishu_event_def handshake_envelope_def spec_plain_acknowledgement_def)

subsection \<open>The answer texts of a turn\<close>

lemma fst_answer_stream_Cons:
  "fst (answer_stream (p # ps) n r h) =
     drop n (result (fst p)) # fst (answer_stream ps (length (result (fst p))) (Some (fst p)) (snd p))"
  by (cases p) (simp split: prod.splits)

lemma snd_answer_stream_Cons:
  "snd (answer_stream (p # ps) n r h) =
     snd (answer_stream ps (length (result (fst p))) (Some (fst p)) (snd p))"
  by (cases p) (simp split: prod.splits)

lemma answer_stream_final:
  "snd (answer_stream ps n r h) =
     (if ps = [] then (r, h) else (Some (fst (last ps)), snd (last ps)))"
  by (induction ps arbitrary: n r h) (simp_all add: snd_answer_stream_Cons)

lemma growing_prefix_last: "growing (x # xs) \<Longrightarrow> prefix x (last (x # xs))"
proof (induction xs arbitrary: x)
  case Nil
  then show ?case by simp
next
  case (Cons y ys)
  then have "prefix x y" and "prefix y (last (y # ys))" by (auto simp: strict_prefix_def)
  then show ?case by (auto intro: prefix_order.trans)
qed

lemma answer_stream_concat:
  "ps \<noteq> [] \<Longrightarrow> growing (map (\<lambda>p. result (fst p)) ps) \<Longrightarrow>
   n \<le> length (result (fst (hd ps))) \<Longrightarrow>
   concat (fst (answer_stream ps n r h)) = drop n (result (fst (last ps)))"
proof (induction ps arbitrary: n r h)
  case Nil
  then show ?case by simp
next
  case (Cons p ps)
  obtain r' h' where p: "p = (r', h')" by (cases p)
  show ?case
  proof (cases ps)
    case Nil
    with p show ?thesis by simp
  next
    case (Cons p2 ps2)
    with Cons.prems p have sp: "strict_prefix (result r') (result (fst p2))"
      and gr: "growing (map (\<lambda>p. result (fst p)) ps)" by simp_all
    from sp have len: "length (result r') \<le> length (result (fst (hd ps)))"
      using Cons by (auto simp: strict_prefix_def dest: prefix_length_le)
    have ne: "ps \<noteq> []" using Cons by simp
    from Cons.IH [OF ne gr len]
    have ih: "concat (fst (answer_stream ps (length (result r')) (Some r') h'))
                = drop (length (result r')) (result (fst (last ps)))" .
    from Cons.prems(2) p have "prefix (result r') (last (result r' # map (\<lambda>p. result (fst p)) ps))"
      by (intro growing_prefix_last) simp
    with ne have "prefix (result r') (result (fst (last ps)))"
      by (simp add: last_map)
    then obtain zs where zs: "result (fst (last ps)) = result r' @ zs"
      by (auto simp: prefix_def)
    from Cons.prems(3) p have n: "n \<le> length (result r')" by simp
    show ?thesis
      using p ne ih zs n by (simp add: fst_answer_stream_Cons del: answer_stream.simps)
  qed
qed

lemma texts_until_end_texts:
  "texts_until_end (map (\<lambda>t. Send (Text_frame t)) ds @ Send (End_frame q n c) # es) = ds"
  by (induction ds) simp_all

text \<open>
  C5. In a turn of a streaming session whose answer sequence is not empty and grows
  strictly, each partial carrying the whole text so far, the answer texts sent from the
  start of the turn to its end marker concatenate to the text of the last partial.
\<close>

theorem stream_turn_deltas:
  assumes "get_knowledge_based_answer qa question vs_path hist vs = ps"
    and "ps \<noteq> []"
    and "growing (map (\<lambda>p. result (fst p)) ps)"
  shows "concat (texts_until_end
                   (stream_chat_loop qa vs vs_path hist turn r (question # questions)))
           = result (fst (last ps))"
proof -
  obtain sent rf hf where a: "answer_stream ps 0 r hist = (sent, rf, hf)"
    by (cases "answer_stream ps 0 r hist") auto
  with answer_stream_final [of ps 0 r hist] assms(2)
  have rf: "rf = Some (fst (last ps))" by simp
  from answer_stream_concat [OF assms(2,3), of 0 r hist] a
  have "concat sent = result (fst (last ps))" by simp
  with a rf assms(1) show ?thesis
    by (simp add: texts_until_end_texts)
qed

theorem stream_turn_deltas_witness:
  "get_knowledge_based_answer accepting_qa ''q1'' ''vector_store/kb1'' [] Map.empty
     = [(\<lparr>result = ''an'', source_documents = []\<rparr>, [[''q1'', ''an'']]),
        (\<lparr>result = ''answer'',
          source_documents =
            [\<lparr>source = ''content/kb1/a.txt'', page_content = ''abc'', score = ''7''\<rparr>]\<rparr>,
         [[''q1'', ''answer'']])]
   \<and> growing [''an'', ''answer'']
   \<and> concat (texts_until_end
               (stream_chat_loop accepting_qa Map.empty ''vector_store/kb1'' [] 1 None
                  [''q1'', ''q2'']))
       = ''answer''"
proof -
  let ?ps = "[(\<lparr>result = ''an'', source_documents = []\<rparr>, [[''q1'', ''an'']]),
        (\<lparr>result = ''answer'',
          source_documents =
            [\<lparr>source = ''content/kb1/a.txt'', page_content = ''abc'', score = ''7''\<rparr>]\<rparr>,
         [[''q1'', ''answer'']])]"
  have h1: "get_knowledge_based_answer accepting_qa ''q1'' ''vector_store/kb1'' [] Map.empty = ?ps"
    by (simp add: accepting_qa_def)
  have h2: "?ps \<noteq> []" by simp
  have h3: "growing (map (\<lambda>p. result (fst p)) ?ps)" by simp
  show ?thesis
    using h1 h3 stream_turn_deltas [OF h1 h2 h3, of 1 None "[''q2'']"]
    by simp
qed

subsection \<open>The turns of a streaming session\<close>

lemma markers_texts: "markers (map (\<lambda>t. Send (Text_frame t)) ds @ es) = markers es"
  by (induction ds) simp_all

lemma sequential_texts:
  "sequential w (map (\<lambda>t. Send (Text_frame t)) ds @ es) = sequential w es"
  by (induction ds) simp_all

lemma received_texts: "received (map (\<lambda>t. Send (Text_frame t)) ds @ es) = received es"
  by (induction ds) simp_all

lemma markers_from_0 [simp]: "markers_from t 0 = []"
  by (simp add: markers_from_def)

lemma markers_from_Suc:
  "markers_from t (Suc n) = (''start'', t) # (''end'', t) # markers_from (Suc t) n"
  by (simp add: markers_from_def upt_conv_Cons)

text \<open>One round of the loop, with the three results of the inner loop named.\<close>

lemma stream_chat_loop_Cons:
  "stream_chat_loop qa vs vs_path hist turn r (question # questions) =
     [Receive question, Send (Start_frame question turn)]
     @ map (\<lambda>t. Send (Text_frame t))
         (fst (answer_stream (get_knowledge_based_answer qa question vs_path hist vs) 0 r hist))
     @ (case fst (snd (answer_stream (get_knowledge_based_answer qa question vs_path hist vs) 0 r hist)) of
          None \<Rightarrow> [Raised UnboundLocalError]
        | Some resp \<Rightarrow>
            Send (End_frame question turn (render_sources 0 (source_documents resp)))
              # stream_chat_loop qa vs vs_path
                  (snd (snd (answer_stream (get_knowledge_based_answer qa question vs_path hist vs) 0 r hist)))
                  (turn + 1)
                  (fst (snd (answer_stream (get_knowledge_based_answer qa question vs_path hist vs) 0 r hist)))
                  questions)"
  by (cases "answer_stream (get_knowledge_based_answer qa question vs_path hist vs) 0 r hist")
    (simp split: option.splits)

text \<open>
  Once \<^verbatim>\<open>resp\<close> is bound it stays bound: a later turn with an empty answer
  sequence renders the sources of the turn before and completes.
\<close>

lemma answer_stream_bound:
  "fst (snd (answer_stream ps n (Some r) h)) \<noteq> None"
  by (cases "ps = []") (use answer_stream_final [of ps n "Some r" h] in \<open>auto simp: prod_eq_iff\<close>)

lemma markers_loop_bound:
  "markers (stream_chat_loop qa vs vs_path hist turn (Some r) questions)
     = markers_from turn (length questions)"
proof (induction questions arbitrary: hist turn r)
  case Nil
  then show ?case by simp
next
  case (Cons q qs)
  let ?a = "answer_stream (get_knowledge_based_answer qa q vs_path hist vs) 0 (Some r) hist"
  from answer_stream_bound obtain r' where r': "fst (snd ?a) = Some r'" by blast
  show ?case
    by (simp only: stream_chat_loop_Cons r' option.case markers_texts markers.simps
        append_Cons append_Nil Cons.IH)
      (simp add: markers_from_Suc)
qed


lemma received_loop_bound:
  "received (stream_chat_loop qa vs vs_path hist turn (Some r) questions) = questions"
proof (induction questions arbitrary: hist turn r)
  case Nil
  then show ?case by simp
next
  case (Cons q qs)
  let ?a = "answer_stream (get_knowledge_based_answer qa q vs_path hist vs) 0 (Some r) hist"
  from answer_stream_bound obtain r' where r': "fst (snd ?a) = Some r'" by blast
  show ?case
    by (simp only: stream_chat_loop_Cons r' option.case received_texts received.simps
        append_Cons append_Nil Cons.IH)
qed

lemma sequential_loop:
  "sequential True (stream_chat_loop qa vs vs_path hist turn r questions)"
proof (induction questions arbitrary: hist turn r)
  case Nil
  then show ?case by simp
next
  case (Cons q qs)
  let ?a = "answer_stream (get_knowledge_based_answer qa q vs_path hist vs) 0 r hist"
  show ?case
  proof (cases "fst (snd ?a)")
    case None
    then show ?thesis
      by (simp only: stream_chat_loop_Cons option.case sequential_texts sequential.simps
          append_Cons append_Nil simp_thms)
  next
    case (Some r')
    then show ?thesis
      by (simp only: stream_chat_loop_Cons option.case sequential_texts sequential.simps
          append_Cons append_Nil simp_thms Cons.IH)
  qed
qed

lemma markers_loop_prefix:
  "prefix (markers (stream_chat_loop qa vs vs_path hist turn r questions))
     (markers_from turn (length questions))"
proof (cases r)
  case (Some r0)
  then show ?thesis by (simp add: markers_loop_bound)
next
  case None
  show ?thesis
  proof (cases questions)
    case Nil
    then show ?thesis by simp
  next
    case (Cons q qs)
    let ?a = "answer_stream (get_knowledge_based_answer qa q vs_path hist vs) 0 r hist"
    show ?thesis
    proof (cases "fst (snd ?a)")
      case None
      with Cons show ?thesis
        by (simp only: stream_chat_loop_Cons option.case markers_texts markers.simps
            append_Cons append_Nil)
          (simp add: markers_from_Suc)
    next
      case (Some r')
      with Cons show ?thesis
        by (simp only: stream_chat_loop_Cons option.case markers_texts markers.simps
            append_Cons append_Nil markers_loop_bound)
          (simp add: markers_from_Suc)
    qed
  qed
qed

lemma first_turn_binds:
  "get_knowledge_based_answer qa q vs_path hist vs \<noteq> [] \<Longrightarrow>
   fst (snd (answer_stream (get_knowledge_based_answer qa q vs_path hist vs) 0 r hist)) \<noteq> None"
  using answer_stream_final [of "get_knowledge_based_answer qa q vs_path hist vs" 0 r hist]
  by (auto simp: prod_eq_iff)

lemma markers_loop_complete:
  assumes "questions = [] \<or> get_knowledge_based_answer qa (hd questions) vs_path hist vs \<noteq> []"
  shows "markers (stream_chat_loop qa vs vs_path hist turn r questions)
           = markers_from turn (length questions)
         \<and> received (stream_chat_loop qa vs vs_path hist turn r questions) = questions"
proof (cases questions)
  case Nil
  then show ?thesis by simp
next
  case (Cons q qs)
  let ?a = "answer_stream (get_knowledge_based_answer qa q vs_path hist vs) 0 r hist"
  from assms Cons first_turn_binds [of qa q vs_path hist vs r]
  obtain r' where r': "fst (snd ?a) = Some r'" by auto
  have "markers (stream_chat_loop qa vs vs_path hist turn r (q # qs))
          = markers_from turn (length (q # qs))"
    by (simp only: stream_chat_loop_Cons r' option.case markers_texts markers.simps
        append_Cons append_Nil markers_loop_bound)
      (simp add: markers_from_Suc)
  moreover have "received (stream_chat_loop qa vs vs_path hist turn r (q # qs)) = q # qs"
    by (simp only: stream_chat_loop_Cons r' option.case received_texts received.simps
        append_Cons append_Nil received_loop_bound)
  ultimately show ?thesis using Cons by simp
qed

text \<open>
  C7. In every streaming session the markers sent are an initial part of start 1, end 1,
  start 2, end 2 and so on, so every session numbers its turns from 1 and by steps of 1;
  a question is received only at the start of the session or after the end marker of the
  turn before; and when the index exists and the engine answers every question with at
  least one partial, every question sent is received, in order, and has its two markers.
\<close>

theorem stream_chat_turns:
  "prefix (markers (stream_chat cfg qa kb st questions)) (markers_from 1 (length questions))
   \<and> sequential True (stream_chat cfg qa kb st questions)
   \<and> (vector_store st (get_vs_path cfg kb) \<noteq> None
        \<and> (\<forall>q h. get_knowledge_based_answer qa q (get_vs_path cfg kb) h (vector_store st) \<noteq> [])
      \<longrightarrow> markers (stream_chat cfg qa kb st questions) = markers_from 1 (length questions)
          \<and> received (stream_chat cfg qa kb st questions) = questions)"
proof (cases "vector_store st (get_vs_path cfg kb) = None")
  case True
  then show ?thesis by (simp add: stream_chat_def get_vs_path_def)
next
  case False
  let ?loop = "stream_chat_loop qa (vector_store st) (get_vs_path cfg kb) [] 1 None questions"
  from False have run: "stream_chat cfg qa kb st questions = Accept # ?loop"
    by (auto simp: stream_chat_def get_vs_path_def Let_def)
  have "prefix (markers ?loop) (markers_from 1 (length questions))"
    by (rule markers_loop_prefix)
  moreover have "sequential True ?loop" by (rule sequential_loop)
  moreover have "(\<forall>q h. get_knowledge_based_answer qa q (get_vs_path cfg kb) h (vector_store st) \<noteq> [])
      \<longrightarrow> markers ?loop = markers_from 1 (length questions) \<and> received ?loop = questions"
    using markers_loop_complete [of questions qa "get_vs_path cfg kb" "[]" "vector_store st" 1 None]
    by blast
  ultimately show ?thesis by (simp add: run)
qed

theorem stream_chat_turns_witness:
  "vector_store kb1_index_store (get_vs_path example_config ''kb1'') \<noteq> None
   \<and> (\<forall>q h. get_knowledge_based_answer accepting_qa q (get_vs_path example_config ''kb1'') h
               (vector_store kb1_index_store) \<noteq> [])
   \<and> markers (stream_chat example_config accepting_qa ''kb1'' kb1_index_store [''q1'', ''q2''])
       = [(''start'', 1), (''end'', 1), (''start'', 2), (''end'', 2)]
   \<and> received (stream_chat example_config accepting_qa ''kb1'' kb1_index_store [''q1'', ''q2''])
       = [''q1'', ''q2'']
   \<and> sequential True (stream_chat example_config accepting_qa ''kb1'' kb1_index_store [''q1'', ''q2''])"
proof -
  have h1: "vector_store kb1_index_store (get_vs_path example_config ''kb1'') \<noteq> None"
    by (simp add: kb1_index_store_def get_vs_path_def path_join_def example_config_def)
  have h2: "\<forall>q h. get_knowledge_based_answer accepting_qa q (get_vs_path example_config ''kb1'') h
               (vector_store kb1_index_store) \<noteq> []"
    by (simp add: accepting_qa_def)
  show ?thesis
    using h1 h2
      stream_chat_turns [of example_config accepting_qa "''kb1''" kb1_index_store "[''q1'', ''q2'']"]
    by (simp add: markers_from_Suc)
qed

end
